theory Spec2Isabelle
  imports Main "HOL-Library.Sublist"
begin

section \<open>Data model\<close>

text \<open>
  The provider's record, \<^verbatim>\<open>pb.Record\<close> of the porkbun client library: seven string
  fields. The converter of this repository fills five of them; \<open>Prio\<close> and \<open>Notes\<close>
  keep Go's zero value, the empty string.
\<close>

record pb_record =
  ID :: string
  Name :: string
  Type :: string
  Content :: string
  TTL :: string
  Prio :: string
  Notes :: string

text \<open>
  The orchestrator's endpoint, restricted to the four fields that \<^verbatim>\<open>porkbun.go\<close>
  reads. \<open>RecordTTL\<close> is an \<^verbatim>\<open>int64\<close> in the source; no arithmetic is done on it,
  so it is kept as an integer.
\<close>

record endpoint =
  DNSName :: string
  Targets :: "string list"
  RecordType :: string
  RecordTTL :: int

text \<open>\<^verbatim>\<open>plan.Changes\<close>: the four endpoint lists of a change batch.\<close>

record changes =
  Create :: "endpoint list"
  UpdateOld :: "endpoint list"
  UpdateNew :: "endpoint list"
  Delete :: "endpoint list"

definition RecordTypeTXT :: string where
  "RecordTypeTXT = ''TXT''"

section \<open>The string functions of Go's standard library that the code calls\<close>

text \<open>Go strings are byte sequences and \<^verbatim>\<open>len\<close> counts bytes, as \<open>length\<close> does here.\<close>

definition HasPrefix :: "string \<Rightarrow> string \<Rightarrow> bool" where
  "HasPrefix s p = (length s \<ge> length p \<and> take (length p) s = p)"

definition HasSuffix :: "string \<Rightarrow> string \<Rightarrow> bool" where
  "HasSuffix s suf = (length s \<ge> length suf \<and> drop (length s - length suf) s = suf)"

definition TrimSuffix :: "string \<Rightarrow> string \<Rightarrow> string" where
  "TrimSuffix s suf = (if HasSuffix s suf then take (length s - length suf) s else s)"

text \<open>
  \<^verbatim>\<open>strings.Trim(s, cutset)\<close> for a cutset of ASCII bytes: every leading and every
  trailing byte that occurs in the cutset is removed.
\<close>

definition Trim :: "string \<Rightarrow> string \<Rightarrow> string" where
  "Trim s cutset =
     rev (dropWhile (\<lambda>c. c \<in> set cutset) (rev (dropWhile (\<lambda>c. c \<in> set cutset) s)))"


text \<open>
  \<^verbatim>\<open>strconv.Atoi\<close> on a 64-bit platform: an optional sign, then one or more decimal
  digits and nothing else; a value outside the range of \<^verbatim>\<open>int\<close> is an error too.
  \<open>None\<close> stands for the error.
\<close>

definition isDigit :: "char \<Rightarrow> bool" where
  "isDigit c = (48 \<le> (of_char c :: nat) \<and> (of_char c :: nat) \<le> 57)"

fun parseDigits :: "nat \<Rightarrow> string \<Rightarrow> nat option" where
  "parseDigits acc [] = Some acc"
| "parseDigits acc (c # cs) =
     (if isDigit c then parseDigits (acc * 10 + (of_char c - 48)) cs else None)"

definition parseUnsigned :: "bool \<Rightarrow> string \<Rightarrow> int option" where
  "parseUnsigned neg ds =
     (if ds = [] then None
      else case parseDigits 0 ds of
             None \<Rightarrow> None
           | Some n \<Rightarrow>
               (let v = (if neg then - int n else int n)
                in if - (2 ^ 63) \<le> v \<and> v \<le> 2 ^ 63 - 1 then Some v else None))"

fun Atoi :: "string \<Rightarrow> int option" where
  "Atoi [] = None"
| "Atoi (c # cs) =
     (if c = CHR ''-'' then parseUnsigned True cs
      else if c = CHR ''+'' then parseUnsigned False cs
      else parseUnsigned False (c # cs))"

text \<open>\<^verbatim>\<open>strconv.FormatInt(i, 10)\<close>: the decimal digits, after a minus sign when negative.\<close>

fun natDigits :: "nat \<Rightarrow> string" where
  "natDigits n =
     (if n < 10 then [char_of (48 + n)]
      else natDigits (n div 10) @ [char_of (48 + n mod 10)])"

declare natDigits.simps [simp del]

definition FormatInt :: "int \<Rightarrow> string" where
  "FormatInt i = (if i < 0 then CHR ''-'' # natDigits (nat (- i)) else natDigits (nat i))"

section \<open>Zone matcher and record matcher\<close>

text \<open>
  \<^verbatim>\<open>endpointZoneName\<close>: the loop keeps the current best match in \<open>matchZoneName\<close>,
  starting from the empty string, and replaces it only by a strictly longer suffix.
\<close>

fun zoneLoop :: "string \<Rightarrow> string list \<Rightarrow> string \<Rightarrow> string" where
  "zoneLoop dnsName [] matchZoneName = matchZoneName"
| "zoneLoop dnsName (zoneName # zones) matchZoneName =
     (if HasSuffix dnsName zoneName \<and> length zoneName > length matchZoneName
      then zoneLoop dnsName zones zoneName
      else zoneLoop dnsName zones matchZoneName)"

definition endpointZoneName :: "endpoint \<Rightarrow> string list \<Rightarrow> string" where
  "endpointZoneName ep zones = zoneLoop (DNSName ep) zones []"

text \<open>\<^verbatim>\<open>getIDforRecord\<close>: the first record that passes both tests gives its identifier.\<close>

fun getIDforRecord :: "string \<Rightarrow> string \<Rightarrow> string \<Rightarrow> pb_record list \<Rightarrow> bool \<Rightarrow> string" where
  "getIDforRecord recordName target recordType [] useStrictMatchForDelete = []"
| "getIDforRecord recordName target recordType (r # recs) useStrictMatchForDelete =
     (if Type r \<noteq> recordType \<or> Name r \<noteq> recordName
      then getIDforRecord recordName target recordType recs useStrictMatchForDelete
      else if useStrictMatchForDelete \<and> target \<noteq> Content r
      then getIDforRecord recordName target recordType recs useStrictMatchForDelete
      else ID r)"

section \<open>Endpoint-to-record converter\<close>

text \<open>
  One iteration of the loop of \<^verbatim>\<open>convertToPorkbunRecord\<close>: \<open>None\<close> when the endpoint
  has no targets (the \<^verbatim>\<open>continue\<close>), otherwise the record that is appended. The
  identifier is looked up under \<open>fqdn\<close>, the endpoint's full DNS name.
\<close>

definition convertOne :: "pb_record list \<Rightarrow> string \<Rightarrow> bool \<Rightarrow> endpoint \<Rightarrow> pb_record option" where
  "convertOne recs zoneName useStrictMatchForDelete ep =
     (let fqdn = DNSName ep;
          recordName = (if fqdn = zoneName then [] else TrimSuffix fqdn (CHR ''.'' # zoneName))
      in case Targets ep of
           [] \<Rightarrow> None
         | t0 # _ \<Rightarrow>
             (let target =
                    (if RecordType ep = RecordTypeTXT \<and> HasPrefix t0 (CHR 0x22 # ''heritage='')
                     then Trim t0 [CHR 0x22] else t0);
                  id = getIDforRecord fqdn target (RecordType ep) recs useStrictMatchForDelete
              in Some \<lparr>ID = id, Name = recordName, Type = RecordType ep, Content = target,
                       TTL = FormatInt (RecordTTL ep), Prio = [], Notes = []\<rparr>))"

fun convertToPorkbunRecord ::
  "pb_record list \<Rightarrow> endpoint list \<Rightarrow> string \<Rightarrow> bool \<Rightarrow> pb_record list" where
  "convertToPorkbunRecord recs [] zoneName useStrictMatchForDelete = []"
| "convertToPorkbunRecord recs (ep # endpoints) zoneName useStrictMatchForDelete =
     (case convertOne recs zoneName useStrictMatchForDelete ep of
        None \<Rightarrow> convertToPorkbunRecord recs endpoints zoneName useStrictMatchForDelete
      | Some r \<Rightarrow> r # convertToPorkbunRecord recs endpoints zoneName useStrictMatchForDelete)"

section \<open>No-op suppressor\<close>

text \<open>
  \<^verbatim>\<open>removeNoopTXTUpdates\<close>. The first loop fills \<open>oldMap\<close>, a Go map keyed by
  (DNS name, first target): a later update-old entry under the same key overwrites an
  earlier one. The second loop filters update-new against it.
\<close>

fun buildOldMap ::
  "endpoint list \<Rightarrow> (string \<times> string \<rightharpoonup> endpoint) \<Rightarrow> (string \<times> string \<rightharpoonup> endpoint)" where
  "buildOldMap [] oldMap = oldMap"
| "buildOldMap (ep # eps) oldMap =
     (if RecordType ep \<noteq> RecordTypeTXT then buildOldMap eps oldMap
      else case Targets ep of
             [] \<Rightarrow> buildOldMap eps oldMap
           | t0 # _ \<Rightarrow> buildOldMap eps (oldMap((DNSName ep, t0) \<mapsto> ep)))"

fun filterUpdateNew :: "(string \<times> string \<rightharpoonup> endpoint) \<Rightarrow> endpoint list \<Rightarrow> endpoint list" where
  "filterUpdateNew oldMap [] = []"
| "filterUpdateNew oldMap (ep # eps) =
     (if RecordType ep \<noteq> RecordTypeTXT \<or> length (Targets ep) = 0
      then ep # filterUpdateNew oldMap eps
      else case Targets ep of
             [] \<Rightarrow> ep # filterUpdateNew oldMap eps
           | t0 # _ \<Rightarrow>
               (case oldMap (DNSName ep, t0) of
                  None \<Rightarrow> ep # filterUpdateNew oldMap eps
                | Some old \<Rightarrow>
                    if RecordTTL old = RecordTTL ep then filterUpdateNew oldMap eps
                    else ep # filterUpdateNew oldMap eps))"

definition removeNoopTXTUpdates :: "changes \<Rightarrow> changes" where
  "removeNoopTXTUpdates c =
     (if length (UpdateOld c) = 0 \<or> length (UpdateNew c) = 0 then c
      else c\<lparr>UpdateNew := filterUpdateNew (buildOldMap (UpdateOld c) Map.empty) (UpdateNew c)\<rparr>)"

section \<open>The provider client and the calls issued to it\<close>

text \<open>
  The remote client is not part of the repository. It is modelled as an environment
  that answers each call as a function of the calls issued so far, so that any
  deterministic stateful client is covered. The program state is that history, the
  list of calls in the order they were issued. A client failure is an opaque message.
\<close>

datatype call =
    CallPing
  | CallRetrieveRecords string
  | CallDeleteRecord string int
  | CallCreateRecord string pb_record
  | CallEditRecord string int pb_record

record pb_client =
  Ping :: "call list \<Rightarrow> string option"
  RetrieveRecords :: "call list \<Rightarrow> string \<Rightarrow> string + pb_record list"
  DeleteRecord :: "call list \<Rightarrow> string \<Rightarrow> int \<Rightarrow> string option"
  CreateRecord :: "call list \<Rightarrow> string \<Rightarrow> pb_record \<Rightarrow> string option"
  EditRecord :: "call list \<Rightarrow> string \<Rightarrow> int \<Rightarrow> pb_record \<Rightarrow> string option"

text \<open>
  The errors of \<^verbatim>\<open>porkbun.go\<close>: a client failure, and one constructor for each
  \<^verbatim>\<open>fmt.Errorf\<close> of the source, wrapping the error it was built from.
\<close>

datatype error =
    ClientError string
  | UnableToParseRecordID pb_record
  | UnableToDeleteRecord error
  | UnableToCreateRecord error
  | UnableToUpdateRecord pb_record int string error
  | UnableToGetDNSRecords error
  | UnableToDeleteRecords error
  | UnableToCreateRecords error
  | UnableToUpdateRecords error

record PorkbunProvider =
  client :: pb_client
  domainFilter :: "string list"
  dryRun :: bool

fun DeleteDnsRecords ::
  "PorkbunProvider \<Rightarrow> string \<Rightarrow> pb_record list \<Rightarrow> call list \<Rightarrow> call list \<times> error option" where
  "DeleteDnsRecords p zone [] tr = (tr, None)"
| "DeleteDnsRecords p zone (r # records) tr =
     (case Atoi (ID r) of
        None \<Rightarrow> (tr, Some (UnableToParseRecordID r))
      | Some i \<Rightarrow>
          (case DeleteRecord (client p) tr zone i of
             Some e \<Rightarrow> (tr @ [CallDeleteRecord zone i], Some (UnableToDeleteRecord (ClientError e)))
           | None \<Rightarrow> DeleteDnsRecords p zone records (tr @ [CallDeleteRecord zone i])))"

fun CreateDnsRecords ::
  "PorkbunProvider \<Rightarrow> string \<Rightarrow> pb_record list \<Rightarrow> call list \<Rightarrow> call list \<times> error option" where
  "CreateDnsRecords p zone [] tr = (tr, None)"
| "CreateDnsRecords p zone (r # records) tr =
     (case CreateRecord (client p) tr zone r of
        Some e \<Rightarrow> (tr @ [CallCreateRecord zone r], Some (UnableToCreateRecord (ClientError e)))
      | None \<Rightarrow> CreateDnsRecords p zone records (tr @ [CallCreateRecord zone r]))"

fun UpdateDnsRecords ::
  "PorkbunProvider \<Rightarrow> string \<Rightarrow> pb_record list \<Rightarrow> call list \<Rightarrow> call list \<times> error option" where
  "UpdateDnsRecords p zone [] tr = (tr, None)"
| "UpdateDnsRecords p zone (r # records) tr =
     (case Atoi (ID r) of
        None \<Rightarrow> (tr, Some (UnableToParseRecordID r))
      | Some i \<Rightarrow>
          (case EditRecord (client p) tr zone i r of
             Some e \<Rightarrow>
               (tr @ [CallEditRecord zone i r], Some (UnableToUpdateRecord r i zone (ClientError e)))
           | None \<Rightarrow> UpdateDnsRecords p zone records (tr @ [CallEditRecord zone i r])))"

definition ensureLogin :: "PorkbunProvider \<Rightarrow> call list \<Rightarrow> call list \<times> error option" where
  "ensureLogin p tr =
     (case Ping (client p) tr of
        Some e \<Rightarrow> (tr @ [CallPing], Some (ClientError e))
      | None \<Rightarrow> (tr @ [CallPing], None))"

section \<open>Listing the current state\<close>





section \<open>Change planner\<close>

definition applyChangesToZone ::
  "PorkbunProvider \<Rightarrow> changes \<Rightarrow> string \<Rightarrow> call list \<Rightarrow> call list \<times> error option" where
  "applyChangesToZone p c0 zone tr =
     (let c = removeNoopTXTUpdates c0
      in if length (Create c) + length (Delete c) + length (UpdateNew c) = 0 then (tr, None)
         else case RetrieveRecords (client p) tr zone of
                Inl e \<Rightarrow> (tr @ [CallRetrieveRecords zone], Some (UnableToGetDNSRecords (ClientError e)))
              | Inr recs \<Rightarrow>
                  (let changeCreate = convertToPorkbunRecord recs (Create c) zone False;
                       changeDesiredAfterUpdate = convertToPorkbunRecord recs (UpdateNew c) zone False;
                       changeDelete = convertToPorkbunRecord recs (Delete c) zone True
                   in case DeleteDnsRecords p zone changeDelete (tr @ [CallRetrieveRecords zone]) of
                        (tr1, Some e) \<Rightarrow> (tr1, Some (UnableToDeleteRecords e))
                      | (tr1, None) \<Rightarrow>
                          (case CreateDnsRecords p zone changeCreate tr1 of
                             (tr2, Some e) \<Rightarrow> (tr2, Some (UnableToCreateRecords e))
                           | (tr2, None) \<Rightarrow>
                               (case UpdateDnsRecords p zone changeDesiredAfterUpdate tr2 of
                                  (tr3, Some e) \<Rightarrow> (tr3, Some (UnableToUpdateRecords e))
                                | (tr3, None) \<Rightarrow> (tr3, None)))))"

definition emptyChanges :: changes where
  "emptyChanges = \<lparr>Create = [], UpdateOld = [], UpdateNew = [], Delete = []\<rparr>"

fun initZones :: "string list \<Rightarrow> (string \<rightharpoonup> changes) \<Rightarrow> (string \<rightharpoonup> changes)" where
  "initZones [] perZoneChanges = perZoneChanges"
| "initZones (zoneName # zones) perZoneChanges =
     initZones zones (perZoneChanges(zoneName \<mapsto> emptyChanges))"

text \<open>
  The four routing loops of \<^verbatim>\<open>ApplyChanges\<close> differ only in the field they append
  to, given here as \<open>add\<close>. Writing through a key that the map does not hold would
  dereference a nil pointer; \<open>None\<close> is that panic.
\<close>

fun route ::
  "(endpoint \<Rightarrow> changes \<Rightarrow> changes) \<Rightarrow> string list \<Rightarrow> endpoint list \<Rightarrow> (string \<rightharpoonup> changes)
     \<Rightarrow> (string \<rightharpoonup> changes) option" where
  "route add filters [] perZoneChanges = Some perZoneChanges"
| "route add filters (ep # eps) perZoneChanges =
     (let zoneName = endpointZoneName ep filters
      in if zoneName = [] then route add filters eps perZoneChanges
         else case perZoneChanges zoneName of
                None \<Rightarrow> None
              | Some c \<Rightarrow> route add filters eps (perZoneChanges(zoneName \<mapsto> add ep c)))"

definition addCreate :: "endpoint \<Rightarrow> changes \<Rightarrow> changes" where
  "addCreate ep c = c\<lparr>Create := Create c @ [ep]\<rparr>"

definition addUpdateOld :: "endpoint \<Rightarrow> changes \<Rightarrow> changes" where
  "addUpdateOld ep c = c\<lparr>UpdateOld := UpdateOld c @ [ep]\<rparr>"

definition addUpdateNew :: "endpoint \<Rightarrow> changes \<Rightarrow> changes" where
  "addUpdateNew ep c = c\<lparr>UpdateNew := UpdateNew c @ [ep]\<rparr>"

definition addDelete :: "endpoint \<Rightarrow> changes \<Rightarrow> changes" where
  "addDelete ep c = c\<lparr>Delete := Delete c @ [ep]\<rparr>"

definition partitionChanges :: "string list \<Rightarrow> changes \<Rightarrow> (string \<rightharpoonup> changes) option" where
  "partitionChanges filters chs =
     (case route addCreate filters (Create chs) (initZones filters Map.empty) of
        None \<Rightarrow> None
      | Some m1 \<Rightarrow>
          (case route addUpdateOld filters (UpdateOld chs) m1 of
             None \<Rightarrow> None
           | Some m2 \<Rightarrow>
               (case route addUpdateNew filters (UpdateNew chs) m2 of
                  None \<Rightarrow> None
                | Some m3 \<Rightarrow> route addDelete filters (Delete chs) m3)))"

text \<open>
  The loop over \<open>perZoneChanges\<close>. Go visits the keys of a map in an unspecified
  order, each key once; \<open>order\<close> is that order. \<^verbatim>\<open>HasChanges\<close> belongs to the
  orchestrator's library and is a parameter.
\<close>

fun applyLoop ::
  "(changes \<Rightarrow> bool) \<Rightarrow> PorkbunProvider \<Rightarrow> (string \<rightharpoonup> changes) \<Rightarrow> string list \<Rightarrow> call list
     \<Rightarrow> error option \<Rightarrow> call list \<times> error option" where
  "applyLoop HasChanges p perZoneChanges [] tr firstErr = (tr, firstErr)"
| "applyLoop HasChanges p perZoneChanges (zoneName # order) tr firstErr =
     (case perZoneChanges zoneName of
        None \<Rightarrow> applyLoop HasChanges p perZoneChanges order tr firstErr
      | Some c \<Rightarrow>
          if \<not> HasChanges c then applyLoop HasChanges p perZoneChanges order tr firstErr
          else case applyChangesToZone p c zoneName tr of
                 (tr1, Some err) \<Rightarrow>
                   applyLoop HasChanges p perZoneChanges order tr1
                     (if firstErr = None then Some err else firstErr)
               | (tr1, None) \<Rightarrow> applyLoop HasChanges p perZoneChanges order tr1 firstErr)"

definition ApplyChanges ::
  "(changes \<Rightarrow> bool) \<Rightarrow> string list \<Rightarrow> PorkbunProvider \<Rightarrow> changes \<Rightarrow> call list
     \<Rightarrow> (call list \<times> error option) option" where
  "ApplyChanges HasChanges order p chs tr =
     (if \<not> HasChanges chs then Some (tr, None)
      else case (if dryRun p then (tr, None) else ensureLogin p tr) of
             (tr1, Some e) \<Rightarrow> Some (tr1, Some e)
           | (tr1, None) \<Rightarrow>
               (case partitionChanges (domainFilter p) chs of
                  None \<Rightarrow> None
                | Some perZoneChanges \<Rightarrow>
                    if dryRun p then Some (tr1, None)
                    else Some (applyLoop HasChanges p perZoneChanges order tr1 None)))"

section \<open>Reference notions used to state the properties\<close>

text \<open>
  The update-old entry that the suppressor compares with: the last TXT entry with a
  target under the given DNS name and first target.
\<close>

definition priorEntry :: "endpoint list \<Rightarrow> string \<Rightarrow> string \<Rightarrow> endpoint option" where
  "priorEntry olds name t0 =
     find (\<lambda>old. RecordType old = RecordTypeTXT \<and> DNSName old = name
                  \<and> (case Targets old of [] \<Rightarrow> False | u # _ \<Rightarrow> u = t0))
          (rev olds)"

definition isNoop :: "endpoint list \<Rightarrow> endpoint \<Rightarrow> bool" where
  "isNoop olds ep =
     (RecordType ep = RecordTypeTXT \<and>
      (case Targets ep of
         [] \<Rightarrow> False
       | t0 # _ \<Rightarrow>
           (case priorEntry olds (DNSName ep) t0 of
              None \<Rightarrow> False
            | Some old \<Rightarrow> RecordTTL old = RecordTTL ep)))"

text \<open>The delete and edit calls that a list of records with numeric identifiers stands for.\<close>

fun deleteCalls :: "string \<Rightarrow> pb_record list \<Rightarrow> call list" where
  "deleteCalls zone [] = []"
| "deleteCalls zone (r # rs) =
     (case Atoi (ID r) of
        None \<Rightarrow> deleteCalls zone rs
      | Some i \<Rightarrow> CallDeleteRecord zone i # deleteCalls zone rs)"

fun editCalls :: "string \<Rightarrow> pb_record list \<Rightarrow> call list" where
  "editCalls zone [] = []"
| "editCalls zone (r # rs) =
     (case Atoi (ID r) of
        None \<Rightarrow> editCalls zone rs
      | Some i \<Rightarrow> CallEditRecord zone i r # editCalls zone rs)"

text \<open>
  Whether the client accepts every delete (edit) call of a list of records, each asked
  after the calls before it.
\<close>

fun deletesSucceed :: "PorkbunProvider \<Rightarrow> string \<Rightarrow> pb_record list \<Rightarrow> call list \<Rightarrow> bool" where
  "deletesSucceed p zone [] tr = True"
| "deletesSucceed p zone (r # rs) tr =
     (case Atoi (ID r) of
        None \<Rightarrow> False
      | Some i \<Rightarrow> DeleteRecord (client p) tr zone i = None
                  \<and> deletesSucceed p zone rs (tr @ [CallDeleteRecord zone i]))"

fun editsSucceed :: "PorkbunProvider \<Rightarrow> string \<Rightarrow> pb_record list \<Rightarrow> call list \<Rightarrow> bool" where
  "editsSucceed p zone [] tr = True"
| "editsSucceed p zone (r # rs) tr =
     (case Atoi (ID r) of
        None \<Rightarrow> False
      | Some i \<Rightarrow> EditRecord (client p) tr zone i r = None
                  \<and> editsSucceed p zone rs (tr @ [CallEditRecord zone i r]))"

text \<open>
  The zones that one pass over \<open>order\<close> attempts, each with the history after the
  attempt and its outcome; the history is handed on whatever the outcome was.
\<close>

fun zoneOutcomes ::
  "(changes \<Rightarrow> bool) \<Rightarrow> PorkbunProvider \<Rightarrow> (string \<rightharpoonup> changes) \<Rightarrow> string list \<Rightarrow> call list
     \<Rightarrow> (string \<times> call list \<times> error option) list" where
  "zoneOutcomes HasChanges p perZoneChanges [] tr = []"
| "zoneOutcomes HasChanges p perZoneChanges (zoneName # order) tr =
     (case perZoneChanges zoneName of
        None \<Rightarrow> zoneOutcomes HasChanges p perZoneChanges order tr
      | Some c \<Rightarrow>
          if \<not> HasChanges c then zoneOutcomes HasChanges p perZoneChanges order tr
          else (zoneName, applyChangesToZone p c zoneName tr)
                 # zoneOutcomes HasChanges p perZoneChanges order
                     (fst (applyChangesToZone p c zoneName tr)))"

fun firstError :: "error option list \<Rightarrow> error option" where
  "firstError [] = None"
| "firstError (None # rs) = firstError rs"
| "firstError (Some e # rs) = Some e"




text \<open>The history after the last attempt of a pass, or the starting history when no zone was attempted.\<close>

fun lastTrace :: "call list \<Rightarrow> (string \<times> call list \<times> error option) list \<Rightarrow> call list" where
  "lastTrace tr [] = tr"
| "lastTrace tr (outcome # outcomes) = lastTrace (fst (snd outcome)) outcomes"

section \<open>Sample clients and inputs\<close>

text \<open>
  Concrete provider clients and values on which the properties below are evaluated:
  a client that accepts every call and returns a fixed record list, one that refuses
  every call, one that fails to list the zone \<open>bar.org\<close> only, a record with a given
  identifier, stand-ins for the library's endpoint constructor (\<open>checkedEndpoint\<close>
  yields nil for a name with a label of more than 63 bytes) and a stand-in for its
  \<^verbatim>\<open>HasChanges\<close>.
\<close>

definition acceptingClient :: "pb_record list \<Rightarrow> pb_client" where
  "acceptingClient records =
     \<lparr>Ping = (\<lambda>tr. None),
      RetrieveRecords = (\<lambda>tr zone. Inr records),
      DeleteRecord = (\<lambda>tr zone i. None),
      CreateRecord = (\<lambda>tr zone r. None),
      EditRecord = (\<lambda>tr zone i r. None)\<rparr>"

definition refusingClient :: pb_client where
  "refusingClient =
     \<lparr>Ping = (\<lambda>tr. None),
      RetrieveRecords = (\<lambda>tr zone. Inl ''boom''),
      DeleteRecord = (\<lambda>tr zone i. Some ''boom''),
      CreateRecord = (\<lambda>tr zone r. Some ''boom''),
      EditRecord = (\<lambda>tr zone i r. Some ''boom'')\<rparr>"

definition recordWithID :: "string \<Rightarrow> pb_record" where
  "recordWithID i =
     \<lparr>ID = i, Name = ''foo'', Type = ''A'', Content = ''5.5.5.5'', TTL = ''600'', Prio = [],
      Notes = []\<rparr>"

definition plainEndpoint :: "string \<Rightarrow> string \<Rightarrow> int \<Rightarrow> string \<Rightarrow> endpoint" where
  "plainEndpoint name recordType ttl target =
     \<lparr>DNSName = name, Targets = [target], RecordType = recordType, RecordTTL = ttl\<rparr>"



definition selectiveClient :: pb_client where
  "selectiveClient =
     \<lparr>Ping = (\<lambda>tr. None),
      RetrieveRecords = (\<lambda>tr zone. if zone = ''bar.org'' then Inl ''boom'' else Inr []),
      DeleteRecord = (\<lambda>tr zone i. None),
      CreateRecord = (\<lambda>tr zone r. None),
      EditRecord = (\<lambda>tr zone i r. None)\<rparr>"

definition anyListNonEmpty :: "changes \<Rightarrow> bool" where
  "anyListNonEmpty c = (Create c \<noteq> [] \<or> Delete c \<noteq> [] \<or> UpdateNew c \<noteq> [] \<or> UpdateOld c \<noteq> [])"

section \<open>Go's string functions against the list library\<close>

lemma HasSuffix_suffix: "HasSuffix s suf = suffix suf s"
proof
  assume "HasSuffix s suf"
  then have "s = take (length s - length suf) s @ suf"
    by (metis HasSuffix_def append_take_drop_id)
  then show "suffix suf s"
    by (rule suffixI)
next
  assume "suffix suf s"
  then obtain p where "s = p @ suf"
    by (auto simp: suffix_def)
  then show "HasSuffix s suf"
    by (simp add: HasSuffix_def)
qed

lemma HasPrefix_prefix: "HasPrefix s p = prefix p s"
proof
  assume "HasPrefix s p"
  then have "s = p @ drop (length p) s"
    by (metis HasPrefix_def append_take_drop_id)
  then show "prefix p s"
    by (rule prefixI)
next
  assume "prefix p s"
  then obtain r where "s = p @ r"
    by (auto simp: prefix_def)
  then show "HasPrefix s p"
    by (simp add: HasPrefix_def)
qed

lemma TrimSuffix_append: "TrimSuffix (p @ suf) suf = p"
  by (simp add: TrimSuffix_def HasSuffix_def)

lemma TrimSuffix_unchanged: "\<not> suffix suf s \<Longrightarrow> TrimSuffix s suf = s"
  by (simp add: TrimSuffix_def HasSuffix_suffix)

section \<open>Zone matcher: the longest suffix wins\<close>

lemma zoneLoop_cases:
  "zoneLoop n zs acc = acc \<or> zoneLoop n zs acc \<in> set zs"
  by (induction zs arbitrary: acc) auto

lemma zoneLoop_suffix:
  "suffix acc n \<Longrightarrow> suffix (zoneLoop n zs acc) n"
  by (induction zs arbitrary: acc) (auto simp: HasSuffix_suffix)

lemma zoneLoop_ge_acc:
  "length acc \<le> length (zoneLoop n zs acc)"
proof (induction zs arbitrary: acc)
  case Nil
  show ?case by simp
next
  case (Cons z zs)
  show ?case
  proof (cases "HasSuffix n z \<and> length z > length acc")
    case True
    with Cons.IH [of z] show ?thesis by simp
  next
    case False
    then have "zoneLoop n (z # zs) acc = zoneLoop n zs acc" by auto
    with Cons.IH [of acc] show ?thesis by simp
  qed
qed

lemma zoneLoop_longest:
  "z \<in> set zs \<Longrightarrow> suffix z n \<Longrightarrow> length z \<le> length (zoneLoop n zs acc)"
proof (induction zs arbitrary: acc)
  case Nil
  then show ?case by simp
next
  case (Cons y ys)
  show ?case
  proof (cases "z = y")
    case True
    show ?thesis
    proof (cases "length y > length acc")
      case True
      with \<open>z = y\<close> Cons.prems zoneLoop_ge_acc [of y n ys] show ?thesis
        by (simp add: HasSuffix_suffix)
    next
      case False
      with \<open>z = y\<close> zoneLoop_ge_acc [of acc n ys] show ?thesis
        by simp
    qed
  next
    case False
    with Cons.prems have "z \<in> set ys" by simp
    from Cons.IH [OF this Cons.prems(2)] show ?thesis by simp
  qed
qed

lemma suffix_same_length: "suffix a n \<Longrightarrow> suffix b n \<Longrightarrow> length a = length b \<Longrightarrow> a = b"
  by (auto simp: suffix_def append_eq_append_conv)

lemma endpointZoneName_suffix: "suffix (endpointZoneName ep zones) (DNSName ep)"
  unfolding endpointZoneName_def by (rule zoneLoop_suffix) simp

lemma endpointZoneName_mem:
  "endpointZoneName ep zones = [] \<or> endpointZoneName ep zones \<in> set zones"
  using zoneLoop_cases [of "DNSName ep" zones "[]"] by (simp add: endpointZoneName_def)

text \<open>
  C2. For every DNS name and every list of zones: when some zone of the list is a
  suffix of the name, the zone matcher returns a zone of the list that is a suffix of
  the name and at least as long as every other such zone (and a suffix of the same
  length is that very zone, so the longest one is unique); when no zone of the list is
  a suffix of the name, it returns the empty string. A zone equal to the name is a
  suffix of it.
\<close>

theorem endpointZoneName_longest_suffix:
  "(if \<exists>z \<in> set zones. suffix z (DNSName ep)
    then endpointZoneName ep zones \<in> set zones
       \<and> suffix (endpointZoneName ep zones) (DNSName ep)
       \<and> (\<forall>z \<in> set zones. suffix z (DNSName ep) \<longrightarrow>
            length z \<le> length (endpointZoneName ep zones)
            \<and> (length z = length (endpointZoneName ep zones) \<longrightarrow> z = endpointZoneName ep zones))
    else endpointZoneName ep zones = [])"
proof (cases "\<exists>z \<in> set zones. suffix z (DNSName ep)")
  case True
  let ?r = "endpointZoneName ep zones"
  have suf: "suffix ?r (DNSName ep)"
    by (rule endpointZoneName_suffix)
  have longest: "\<And>z. z \<in> set zones \<Longrightarrow> suffix z (DNSName ep) \<Longrightarrow> length z \<le> length ?r"
    unfolding endpointZoneName_def by (rule zoneLoop_longest)
  have mem: "?r \<in> set zones"
  proof (cases "?r = []")
    case True
    from \<open>\<exists>z \<in> set zones. suffix z (DNSName ep)\<close>
    obtain z where z: "z \<in> set zones" "suffix z (DNSName ep)"
      by blast
    with longest [of z] True have "z = []" by simp
    with z True show ?thesis by simp
  next
    case False
    with endpointZoneName_mem [of ep zones] show ?thesis by simp
  qed
  have uniq: "\<And>z. suffix z (DNSName ep) \<Longrightarrow> length z = length ?r \<Longrightarrow> z = ?r"
    using suf by (rule suffix_same_length [rotated])
  from True suf longest mem uniq show ?thesis by auto
next
  case False
  with endpointZoneName_mem [of ep zones] endpointZoneName_suffix [of ep zones]
  show ?thesis by auto
qed

theorem endpointZoneName_longest_suffix_witness:
  "(\<exists>z \<in> set [''example.com'', ''sub.example.com'']. suffix z ''a.sub.example.com'')
   \<and> endpointZoneName
        \<lparr>DNSName = ''a.sub.example.com'', Targets = [''1.2.3.4''], RecordType = ''A'',
         RecordTTL = 600\<rparr>
        [''example.com'', ''sub.example.com''] = ''sub.example.com''
   \<and> endpointZoneName
        \<lparr>DNSName = ''a.sub.example.com'', Targets = [''1.2.3.4''], RecordType = ''A'',
         RecordTTL = 600\<rparr>
        [''example.com'', ''sub.example.com''] \<in> set [''example.com'', ''sub.example.com'']"
  using endpointZoneName_longest_suffix
    [of "[''example.com'', ''sub.example.com'']"
        "\<lparr>DNSName = ''a.sub.example.com'', Targets = [''1.2.3.4''], RecordType = ''A'',
          RecordTTL = 600\<rparr>"]
  by (simp add: endpointZoneName_def HasSuffix_def suffix_def)

section \<open>Record matcher: the first match wins\<close>

lemma getIDforRecord_find:
  "getIDforRecord recordName target recordType recs strict =
     (case find (\<lambda>r. Type r = recordType \<and> Name r = recordName
                      \<and> (strict \<longrightarrow> Content r = target)) recs of
        None \<Rightarrow> []
      | Some r \<Rightarrow> ID r)"
  by (induction recs) auto

text \<open>
  C3. For every list of existing records, every query (name, target, type) and every
  strict flag, the record matcher returns the identifier of the first record of the
  list whose type and name equal the requested ones, and whose content equals the
  target when the strict flag is set; it returns the empty string when no record
  matches.
\<close>

theorem getIDforRecord_first_match:
  "getIDforRecord recordName target recordType recs strict =
     (case find (\<lambda>r. Type r = recordType \<and> Name r = recordName
                      \<and> (strict \<longrightarrow> Content r = target)) recs of
        None \<Rightarrow> []
      | Some r \<Rightarrow> ID r)"
  by (rule getIDforRecord_find)

theorem getIDforRecord_first_match_witness:
  "getIDforRecord ''foo.example.com'' ''5.5.5.5'' ''A''
     [\<lparr>ID = ''10'', Name = ''foo.example.com'', Type = ''A'', Content = ''1.1.1.1'',
       TTL = ''600'', Prio = [], Notes = []\<rparr>,
      \<lparr>ID = ''11'', Name = ''foo.example.com'', Type = ''A'', Content = ''5.5.5.5'',
       TTL = ''600'', Prio = [], Notes = []\<rparr>,
      \<lparr>ID = ''12'', Name = ''foo.example.com'', Type = ''A'', Content = ''5.5.5.5'',
       TTL = ''600'', Prio = [], Notes = []\<rparr>] True = ''11''"
  using getIDforRecord_first_match
    [of "''foo.example.com''" "''5.5.5.5''" "''A''"
        "[\<lparr>ID = ''10'', Name = ''foo.example.com'', Type = ''A'', Content = ''1.1.1.1'',
           TTL = ''600'', Prio = [], Notes = []\<rparr>,
          \<lparr>ID = ''11'', Name = ''foo.example.com'', Type = ''A'', Content = ''5.5.5.5'',
           TTL = ''600'', Prio = [], Notes = []\<rparr>,
          \<lparr>ID = ''12'', Name = ''foo.example.com'', Type = ''A'', Content = ''5.5.5.5'',
           TTL = ''600'', Prio = [], Notes = []\<rparr>]" True]
  by simp

section \<open>Decimal strings, trimming and the converter's loop\<close>

lemma parseDigits_snoc:
  "parseDigits acc (xs @ [c]) =
     (case parseDigits acc xs of
        None \<Rightarrow> None
      | Some m \<Rightarrow> if isDigit c then Some (m * 10 + (of_char c - 48)) else None)"
  by (induction xs arbitrary: acc) auto

lemma digit_char:
  assumes "d < 10"
  shows "isDigit (char_of (48 + d))" and "(of_char (char_of (48 + d)) :: nat) - 48 = d"
  using assms by (simp_all add: isDigit_def)

lemma parseDigits_natDigits: "parseDigits 0 (natDigits n) = Some n"
proof (induction n rule: natDigits.induct)
  case (1 n)
  show ?case
  proof (cases "n < 10")
    case True
    then show ?thesis
      by (simp add: natDigits.simps [of n] digit_char)
  next
    case False
    have "n mod 10 < 10" by simp
    with False 1 show ?thesis
      by (simp add: natDigits.simps [of n] parseDigits_snoc digit_char)
  qed
qed

lemma natDigits_head: "\<exists>c cs. natDigits n = c # cs \<and> isDigit c"
proof (induction n rule: natDigits.induct)
  case (1 n)
  show ?case
  proof (cases "n < 10")
    case True
    then show ?thesis
      by (simp add: natDigits.simps [of n] digit_char)
  next
    case False
    with 1 obtain c cs where "natDigits (n div 10) = c # cs" "isDigit c"
      by blast
    with False show ?thesis
      by (simp add: natDigits.simps [of n])
  qed
qed

lemma Atoi_natDigits:
  assumes "int n \<le> 2 ^ 63 - 1"
  shows "Atoi (natDigits n) = Some (int n)"
proof -
  from natDigits_head [of n] obtain c cs where eq: "natDigits n = c # cs" and d: "isDigit c"
    by blast
  from d have "c \<noteq> CHR ''-''" "c \<noteq> CHR ''+''"
    by (auto simp: isDigit_def)
  then have "Atoi (natDigits n) = parseUnsigned False (natDigits n)"
    by (simp add: eq)
  also have "\<dots> = Some (int n)"
    using assms parseDigits_natDigits [of n] eq
    by (simp add: parseUnsigned_def)
  finally show ?thesis .
qed

lemma Atoi_FormatInt:
  assumes "- (2 ^ 63) \<le> i" and "i \<le> 2 ^ 63 - 1"
  shows "Atoi (FormatInt i) = Some i"
proof (cases "i < 0")
  case False
  with assms Atoi_natDigits [of "nat i"] show ?thesis
    by (simp add: FormatInt_def)
next
  case True
  from natDigits_head [of "nat (- i)"] have ne: "natDigits (nat (- i)) \<noteq> []"
    by auto
  from True assms have "Atoi (FormatInt i) = parseUnsigned True (natDigits (nat (- i)))"
    by (simp add: FormatInt_def)
  also have "\<dots> = Some i"
    using True assms ne parseDigits_natDigits [of "nat (- i)"]
    by (simp add: parseUnsigned_def)
  finally show ?thesis .
qed

lemma takeWhile_eq_replicate:
  "takeWhile (\<lambda>c. c = q) xs = replicate (length (takeWhile (\<lambda>c. c = q) xs)) q"
  by (induction xs) auto

lemma strip_trailing:
  "\<exists>n. l = rev (dropWhile (\<lambda>c. c = q) (rev l)) @ replicate n q"
proof -
  have "rev l = takeWhile (\<lambda>c. c = q) (rev l) @ dropWhile (\<lambda>c. c = q) (rev l)"
    by simp
  then have "l = rev (dropWhile (\<lambda>c. c = q) (rev l)) @ rev (takeWhile (\<lambda>c. c = q) (rev l))"
    by (metis rev_append rev_rev_ident)
  moreover have "rev (takeWhile (\<lambda>c. c = q) (rev l))
                 = replicate (length (takeWhile (\<lambda>c. c = q) (rev l))) q"
    using takeWhile_eq_replicate [of q "rev l"] by (metis rev_replicate)
  ultimately show ?thesis by metis
qed

lemma Trim_heritage:
  assumes "prefix (CHR 0x22 # ''heritage='') t0"
  shows "(\<exists>n. t0 = CHR 0x22 # Trim t0 [CHR 0x22] @ replicate n (CHR 0x22))
         \<and> prefix ''heritage='' (Trim t0 [CHR 0x22])
         \<and> last (Trim t0 [CHR 0x22]) \<noteq> CHR 0x22"
proof -
  let ?q = "CHR 0x22"
  from assms obtain rest where t0: "t0 = ?q # ''heritage='' @ rest"
    by (auto simp: prefix_def)
  let ?l = "''heritage='' @ rest"
  have tr: "Trim t0 [?q] = rev (dropWhile (\<lambda>c. c = ?q) (rev ?l))"
    by (simp add: Trim_def t0)
  have dw: "dropWhile (\<lambda>c. c = ?q) (rev ?l)
            = dropWhile (\<lambda>c. c = ?q) (rev rest) @ rev ''heritage=''"
    by (simp add: dropWhile_append3)
  from strip_trailing [of ?l ?q] tr t0
  have a: "\<exists>n. t0 = ?q # Trim t0 [?q] @ replicate n ?q"
    by auto
  from tr dw have b: "Trim t0 [?q] = ''heritage='' @ rev (dropWhile (\<lambda>c. c = ?q) (rev rest))"
    by simp
  then have pre: "prefix ''heritage='' (Trim t0 [?q])"
    by simp
  have c: "last (Trim t0 [?q]) \<noteq> ?q"
  proof (cases "dropWhile (\<lambda>c. c = ?q) (rev rest) = []")
    case True
    with b show ?thesis by simp
  next
    case False
    then have "\<not> (hd (dropWhile (\<lambda>c. c = ?q) (rev rest)) = ?q)"
      by (rule hd_dropWhile)
    moreover from False
    have "last (''heritage='' @ rev (dropWhile (\<lambda>c. c = ?q) (rev rest)))
          = hd (dropWhile (\<lambda>c. c = ?q) (rev rest))"
      by (simp only: last_appendR rev_is_Nil_conv last_rev not_False_eq_True)
    ultimately show ?thesis using b by simp
  qed
  from a pre c show ?thesis by blast
qed

lemma convertToPorkbunRecord_append:
  "convertToPorkbunRecord recs (eps1 @ eps2) z s
     = convertToPorkbunRecord recs eps1 z s @ convertToPorkbunRecord recs eps2 z s"
  by (induction eps1) (auto split: option.splits)

lemma convertOne_None: "Targets ep = [] \<Longrightarrow> convertOne recs z s ep = None"
  by (simp add: convertOne_def)

lemma convertOne_Some:
  assumes "Targets ep = t0 # ts"
  shows "\<exists>r. convertOne recs z s ep = Some r
           \<and> Type r = RecordType ep
           \<and> TTL r = FormatInt (RecordTTL ep)
           \<and> Name r = (if DNSName ep = z then [] else TrimSuffix (DNSName ep) (CHR ''.'' # z))
           \<and> Content r = (if RecordType ep = RecordTypeTXT \<and> prefix (CHR 0x22 # ''heritage='') t0
                          then Trim t0 [CHR 0x22] else t0)
           \<and> ID r = getIDforRecord (DNSName ep) (Content r) (RecordType ep) recs s"
  using assms by (simp add: convertOne_def Let_def HasPrefix_prefix)

lemma convert_single:
  "convertToPorkbunRecord recs [ep] z s = (case convertOne recs z s ep of None \<Rightarrow> [] | Some r \<Rightarrow> [r])"
  by (simp split: option.splits)

section \<open>Endpoint-to-record converter: properties\<close>

lemma FormatInt_600: "FormatInt 600 = ''600''"
  by code_simp

lemma convert_single_Some:
  assumes "Targets ep = t0 # ts"
  shows "\<exists>r. convertToPorkbunRecord recs [ep] z s = [r]
           \<and> Type r = RecordType ep
           \<and> TTL r = FormatInt (RecordTTL ep)
           \<and> Name r = (if DNSName ep = z then [] else TrimSuffix (DNSName ep) (CHR ''.'' # z))
           \<and> Content r = (if RecordType ep = RecordTypeTXT \<and> prefix (CHR 0x22 # ''heritage='') t0
                          then Trim t0 [CHR 0x22] else t0)
           \<and> ID r = getIDforRecord (DNSName ep) (Content r) (RecordType ep) recs s"
proof -
  from convertOne_Some [OF assms, of recs z s] obtain r where
    r: "convertOne recs z s ep = Some r" and
    rest: "Type r = RecordType ep" "TTL r = FormatInt (RecordTTL ep)"
      "Name r = (if DNSName ep = z then [] else TrimSuffix (DNSName ep) (CHR ''.'' # z))"
      "Content r = (if RecordType ep = RecordTypeTXT \<and> prefix (CHR 0x22 # ''heritage='') t0
                    then Trim t0 [CHR 0x22] else t0)"
      "ID r = getIDforRecord (DNSName ep) (Content r) (RecordType ep) recs s"
    by blast
  from r have "convertToPorkbunRecord recs [ep] z s = [r]"
    by (simp add: convert_single)
  with rest show ?thesis by blast
qed

lemma Name_cases:
  assumes "n = (if d = z then [] else TrimSuffix d (CHR ''.'' # z))"
  shows "(d = z \<longrightarrow> n = [])
       \<and> (\<forall>p. d = p @ ''.'' @ z \<longrightarrow> n = p)
       \<and> (d \<noteq> z \<and> \<not> suffix (''.'' @ z) d \<longrightarrow> n = d)"
proof -
  have "\<And>p. d = p @ ''.'' @ z \<Longrightarrow> n = p"
  proof -
    fix p assume d: "d = p @ ''.'' @ z"
    then have "d \<noteq> z" by auto
    moreover have "TrimSuffix d (CHR ''.'' # z) = p"
      using TrimSuffix_append [of p "CHR ''.'' # z"] d by simp
    ultimately show "n = p" using assms by simp
  qed
  moreover have "d \<noteq> z \<and> \<not> suffix (''.'' @ z) d \<longrightarrow> n = d"
    using assms TrimSuffix_unchanged [of "CHR ''.'' # z" d] by simp
  ultimately show ?thesis using assms by auto
qed

text \<open>
  C1 as stated says that the content is the first target for every endpoint. A TXT
  endpoint carrying a quoted ownership marker is converted to a different content.
\<close>

theorem convertToPorkbunRecord_first_target_counterexample:
  "map Content
     (convertToPorkbunRecord []
        [\<lparr>DNSName = ''foo.baz.org'', Targets = [CHR 0x22 # ''heritage=x'' @ [CHR 0x22]],
          RecordType = ''TXT'', RecordTTL = 600\<rparr>] ''baz.org'' False)
   \<noteq> [CHR 0x22 # ''heritage=x'' @ [CHR 0x22]]"
  by (simp add: convertOne_def RecordTypeTXT_def HasPrefix_def Trim_def)

text \<open>
  C1, as amended. Converting a list of endpoints in zone \<open>z\<close> handles each endpoint on
  its own and in order. An endpoint with no targets contributes no record (the
  converter has no error result). An endpoint with at least one target contributes
  exactly one record: its name is empty when the DNS name equals \<open>z\<close>, the DNS name
  without a trailing \<open>"." + z\<close> when it has one, and the DNS name otherwise; its TTL is
  the decimal encoding of the endpoint's TTL (it parses back to it); its content is the
  first target, except for a TXT endpoint whose first target begins with a quoted
  \<open>heritage=\<close> marker, where the content is that target without its leading quote and
  without its trailing quotes. Targets after the first do not appear.
\<close>

theorem convertToPorkbunRecord_one_record:
  "\<exists>out. convertToPorkbunRecord recs (eps1 @ ep # eps2) z s
            = convertToPorkbunRecord recs eps1 z s @ out @ convertToPorkbunRecord recs eps2 z s
     \<and> (case Targets ep of
          [] \<Rightarrow> out = []
        | t0 # ts \<Rightarrow>
            (\<exists>r. out = [r]
               \<and> Type r = RecordType ep
               \<and> (DNSName ep = z \<longrightarrow> Name r = [])
               \<and> (\<forall>p. DNSName ep = p @ ''.'' @ z \<longrightarrow> Name r = p)
               \<and> (DNSName ep \<noteq> z \<and> \<not> suffix (''.'' @ z) (DNSName ep) \<longrightarrow> Name r = DNSName ep)
               \<and> (if RecordType ep = RecordTypeTXT \<and> prefix (CHR 0x22 # ''heritage='') t0
                  then (\<exists>n. t0 = CHR 0x22 # Content r @ replicate n (CHR 0x22))
                       \<and> last (Content r) \<noteq> CHR 0x22
                  else Content r = t0)
               \<and> TTL r = FormatInt (RecordTTL ep)
               \<and> (- (2 ^ 63) \<le> RecordTTL ep \<and> RecordTTL ep \<le> 2 ^ 63 - 1
                    \<longrightarrow> Atoi (TTL r) = Some (RecordTTL ep))))"
proof -
  let ?out = "convertToPorkbunRecord recs [ep] z s"
  have split: "convertToPorkbunRecord recs (eps1 @ ep # eps2) z s
            = convertToPorkbunRecord recs eps1 z s @ ?out @ convertToPorkbunRecord recs eps2 z s"
    using convertToPorkbunRecord_append [of recs eps1 "[ep] @ eps2" z s]
          convertToPorkbunRecord_append [of recs "[ep]" eps2 z s]
    by simp
  show ?thesis
  proof (cases "Targets ep")
    case Nil
    then have "?out = []"
      by (simp add: convert_single convertOne_None)
    with split Nil show ?thesis by auto
  next
    case (Cons t0 ts)
    from convert_single_Some [OF Cons, of recs z s] obtain r where
      out: "?out = [r]" and ty: "Type r = RecordType ep" and
      ttl: "TTL r = FormatInt (RecordTTL ep)" and
      nm: "Name r = (if DNSName ep = z then [] else TrimSuffix (DNSName ep) (CHR ''.'' # z))" and
      ct: "Content r = (if RecordType ep = RecordTypeTXT \<and> prefix (CHR 0x22 # ''heritage='') t0
                        then Trim t0 [CHR 0x22] else t0)"
      by blast
    note names = Name_cases [OF nm]
    have content: "if RecordType ep = RecordTypeTXT \<and> prefix (CHR 0x22 # ''heritage='') t0
                  then (\<exists>n. t0 = CHR 0x22 # Content r @ replicate n (CHR 0x22))
                       \<and> last (Content r) \<noteq> CHR 0x22
                  else Content r = t0"
    proof (cases "RecordType ep = RecordTypeTXT \<and> prefix (CHR 0x22 # ''heritage='') t0")
      case True
      then have "prefix (CHR 0x22 # ''heritage='') t0" by simp
      from Trim_heritage [OF this] True ct show ?thesis by simp
    next
      case False
      with ct show ?thesis by simp
    qed
    have reparse: "- (2 ^ 63) \<le> RecordTTL ep \<and> RecordTTL ep \<le> 2 ^ 63 - 1
                 \<longrightarrow> Atoi (TTL r) = Some (RecordTTL ep)"
      using Atoi_FormatInt [of "RecordTTL ep"] ttl by simp
    have "\<exists>r. ?out = [r]
               \<and> Type r = RecordType ep
               \<and> (DNSName ep = z \<longrightarrow> Name r = [])
               \<and> (\<forall>p. DNSName ep = p @ ''.'' @ z \<longrightarrow> Name r = p)
               \<and> (DNSName ep \<noteq> z \<and> \<not> suffix (''.'' @ z) (DNSName ep) \<longrightarrow> Name r = DNSName ep)
               \<and> (if RecordType ep = RecordTypeTXT \<and> prefix (CHR 0x22 # ''heritage='') t0
                  then (\<exists>n. t0 = CHR 0x22 # Content r @ replicate n (CHR 0x22))
                       \<and> last (Content r) \<noteq> CHR 0x22
                  else Content r = t0)
               \<and> TTL r = FormatInt (RecordTTL ep)
               \<and> (- (2 ^ 63) \<le> RecordTTL ep \<and> RecordTTL ep \<le> 2 ^ 63 - 1
                    \<longrightarrow> Atoi (TTL r) = Some (RecordTTL ep))"
      using out ty names content ttl reparse by blast
    with split Cons show ?thesis
      by (intro exI [of _ ?out]) simp
  qed
qed

theorem convertToPorkbunRecord_one_record_witness:
  "convertToPorkbunRecord []
     ([] @ \<lparr>DNSName = ''foo.bar.org'', Targets = [''5.5.5.5'', ''6.6.6.6''], RecordType = ''A'',
            RecordTTL = 600\<rparr>
         # [\<lparr>DNSName = ''nothing.bar.org'', Targets = [], RecordType = ''A'', RecordTTL = 600\<rparr>])
     ''bar.org'' False
   = [\<lparr>ID = [], Name = ''foo'', Type = ''A'', Content = ''5.5.5.5'', TTL = ''600'', Prio = [],
       Notes = []\<rparr>]
   \<and> ''foo.bar.org'' = ''foo'' @ ''.'' @ ''bar.org''
   \<and> - (2 ^ 63) \<le> (600 :: int) \<and> (600 :: int) \<le> 2 ^ 63 - 1"
  using convertToPorkbunRecord_one_record
    [of "[]" "[]"
        "\<lparr>DNSName = ''foo.bar.org'', Targets = [''5.5.5.5'', ''6.6.6.6''], RecordType = ''A'',
          RecordTTL = 600\<rparr>"
        "[\<lparr>DNSName = ''nothing.bar.org'', Targets = [], RecordType = ''A'', RecordTTL = 600\<rparr>]"
        "''bar.org''" False]
  by (simp add: convertOne_def RecordTypeTXT_def HasPrefix_def TrimSuffix_def HasSuffix_def
        FormatInt_600)

lemma unstripped_name_ends_with_zone:
  assumes "endpointZoneName ep zones = z" and "Targets ep \<noteq> []"
    and "DNSName ep \<noteq> z" and "\<not> suffix (''.'' @ z) (DNSName ep)"
  shows "\<exists>r. convertToPorkbunRecord recs [ep] z s = [r]
           \<and> Name r = DNSName ep \<and> suffix z (Name r)"
proof -
  from assms(2) obtain t0 ts where "Targets ep = t0 # ts"
    by (cases "Targets ep") auto
  from convert_single_Some [OF this, of recs z s] obtain r where
    out: "convertToPorkbunRecord recs [ep] z s = [r]" and
    nm: "Name r = (if DNSName ep = z then [] else TrimSuffix (DNSName ep) (CHR ''.'' # z))"
    by blast
  from Name_cases [OF nm] assms(3,4) have "Name r = DNSName ep" by simp
  moreover from assms(1) endpointZoneName_suffix [of ep zones] have "suffix z (DNSName ep)"
    by simp
  ultimately show ?thesis using out by simp
qed

text \<open>
  C6. The claim: for every endpoint whose DNS name the zone matcher assigns to zone
  \<open>z\<close>, the record emitted by the converter has a zone-relative name that does not end
  with \<open>z\<close>. The code breaks it: the zone matcher accepts \<open>z\<close> as a plain string
  suffix, without a dot before it, while the converter strips \<open>"." + z\<close> only. The
  endpoint \<open>foobar.org\<close> is assigned to the zone \<open>bar.org\<close> and emitted under the name
  \<open>foobar.org\<close>, which still ends with the zone.
\<close>

theorem zone_match_without_dot_keeps_suffix:
  "endpointZoneName
     \<lparr>DNSName = ''foobar.org'', Targets = [''5.5.5.5''], RecordType = ''A'', RecordTTL = 600\<rparr>
     [''bar.org''] = ''bar.org''
   \<and> convertToPorkbunRecord []
       [\<lparr>DNSName = ''foobar.org'', Targets = [''5.5.5.5''], RecordType = ''A'', RecordTTL = 600\<rparr>]
       ''bar.org'' False
     = [\<lparr>ID = [], Name = ''foobar.org'', Type = ''A'', Content = ''5.5.5.5'', TTL = ''600'',
         Prio = [], Notes = []\<rparr>]
   \<and> suffix ''bar.org'' ''foobar.org''"
proof -
  have "suffix ''bar.org'' (''foo'' @ ''bar.org'')"
    by (rule suffixI) simp
  then have "suffix ''bar.org'' ''foobar.org''" by simp
  then show ?thesis
    by (simp add: endpointZoneName_def convertOne_def RecordTypeTXT_def HasPrefix_def
          TrimSuffix_def HasSuffix_def FormatInt_600)
qed

text \<open>
  C7 as stated fails: an existing record stored under the zone-relative name \<open>foo\<close> is
  not found for the endpoint \<open>foo.bar.org\<close>, although the emitted record is named
  \<open>foo\<close> and the record matcher finds it under that name.
\<close>

theorem identifier_lookup_name_counterexample:
  "convertToPorkbunRecord
     [\<lparr>ID = ''10'', Name = ''foo'', Type = ''A'', Content = ''5.5.5.5'', TTL = ''600'',
       Prio = [], Notes = []\<rparr>]
     [\<lparr>DNSName = ''foo.bar.org'', Targets = [''5.5.5.5''], RecordType = ''A'', RecordTTL = 600\<rparr>]
     ''bar.org'' False
   = [\<lparr>ID = [], Name = ''foo'', Type = ''A'', Content = ''5.5.5.5'', TTL = ''600'', Prio = [],
       Notes = []\<rparr>]
   \<and> getIDforRecord ''foo'' ''5.5.5.5'' ''A''
       [\<lparr>ID = ''10'', Name = ''foo'', Type = ''A'', Content = ''5.5.5.5'', TTL = ''600'',
         Prio = [], Notes = []\<rparr>] False = ''10''"
  by (simp add: convertOne_def RecordTypeTXT_def HasPrefix_def TrimSuffix_def HasSuffix_def
        FormatInt_600)

text \<open>
  C7, as amended. For every endpoint with a target, the converter resolves the record
  identifier by querying the record matcher with the endpoint's fully-qualified DNS
  name: the identifier is that of the first existing record whose type is the
  endpoint's type and whose name equals the full DNS name (and whose content equals the
  emitted content under strict matching), and empty when there is none. The name
  compared is not the zone-relative name emitted in the record.
\<close>

theorem identifier_lookup_by_full_name:
  assumes "Targets ep = t0 # ts"
  shows "\<exists>r. convertToPorkbunRecord recs [ep] z s = [r]
           \<and> ID r = (case find (\<lambda>x. Type x = RecordType ep \<and> Name x = DNSName ep
                                      \<and> (s \<longrightarrow> Content x = Content r)) recs of
                       None \<Rightarrow> []
                     | Some x \<Rightarrow> ID x)"
proof -
  from convert_single_Some [OF assms, of recs z s] obtain r where
    out: "convertToPorkbunRecord recs [ep] z s = [r]" and
    id: "ID r = getIDforRecord (DNSName ep) (Content r) (RecordType ep) recs s"
    by blast
  from id have "ID r = (case find (\<lambda>x. Type x = RecordType ep \<and> Name x = DNSName ep
                                      \<and> (s \<longrightarrow> Content x = Content r)) recs of
                       None \<Rightarrow> []
                     | Some x \<Rightarrow> ID x)"
    by (simp only: getIDforRecord_find)
  with out show ?thesis by blast
qed

theorem identifier_lookup_by_full_name_witness:
  "convertToPorkbunRecord
     [\<lparr>ID = ''10'', Name = ''foo.bar.org'', Type = ''A'', Content = ''5.5.5.5'', TTL = ''600'',
       Prio = [], Notes = []\<rparr>]
     [\<lparr>DNSName = ''foo.bar.org'', Targets = [''5.5.5.5''], RecordType = ''A'', RecordTTL = 600\<rparr>]
     ''bar.org'' False
   = [\<lparr>ID = ''10'', Name = ''foo'', Type = ''A'', Content = ''5.5.5.5'', TTL = ''600'', Prio = [],
       Notes = []\<rparr>]"
proof -
  let ?ep = "\<lparr>DNSName = ''foo.bar.org'', Targets = [''5.5.5.5''], RecordType = ''A'',
              RecordTTL = 600\<rparr>"
  have h: "Targets ?ep = ''5.5.5.5'' # []" by simp
  show ?thesis
    using identifier_lookup_by_full_name [OF h, of
        "[\<lparr>ID = ''10'', Name = ''foo.bar.org'', Type = ''A'', Content = ''5.5.5.5'',
           TTL = ''600'', Prio = [], Notes = []\<rparr>]" "''bar.org''" False]
    by (simp add: convertOne_def RecordTypeTXT_def HasPrefix_def TrimSuffix_def HasSuffix_def
          FormatInt_600)
qed

text \<open>
  C8. For every TXT endpoint whose first target begins with a quoted \<open>heritage=\<close>
  marker, the converter emits as content that target without the surrounding quote
  characters: the target is one quote, the content, and then only quotes, and the
  content starts with \<open>heritage=\<close> and does not end with a quote. For every other
  endpoint (another type, or a first target that does not begin with the quoted
  marker) the first target is emitted unchanged.
\<close>

theorem heritage_quotes_stripped:
  assumes "Targets ep = t0 # ts"
  shows "\<exists>r. convertToPorkbunRecord recs [ep] z s = [r]
           \<and> (if RecordType ep = RecordTypeTXT \<and> prefix (CHR 0x22 # ''heritage='') t0
              then (\<exists>n. t0 = CHR 0x22 # Content r @ replicate n (CHR 0x22))
                   \<and> prefix ''heritage='' (Content r)
                   \<and> last (Content r) \<noteq> CHR 0x22
              else Content r = t0)"
proof -
  from convert_single_Some [OF assms, of recs z s] obtain r where
    out: "convertToPorkbunRecord recs [ep] z s = [r]" and
    ct: "Content r = (if RecordType ep = RecordTypeTXT \<and> prefix (CHR 0x22 # ''heritage='') t0
                      then Trim t0 [CHR 0x22] else t0)"
    by blast
  have "if RecordType ep = RecordTypeTXT \<and> prefix (CHR 0x22 # ''heritage='') t0
        then (\<exists>n. t0 = CHR 0x22 # Content r @ replicate n (CHR 0x22))
             \<and> prefix ''heritage='' (Content r)
             \<and> last (Content r) \<noteq> CHR 0x22
        else Content r = t0"
  proof (cases "RecordType ep = RecordTypeTXT \<and> prefix (CHR 0x22 # ''heritage='') t0")
    case True
    then have "prefix (CHR 0x22 # ''heritage='') t0" by simp
    from Trim_heritage [OF this] True ct show ?thesis by simp
  next
    case False
    with ct show ?thesis by simp
  qed
  with out show ?thesis by blast
qed

theorem heritage_quotes_stripped_witness:
  "RecordTypeTXT = ''TXT''
   \<and> prefix (CHR 0x22 # ''heritage='') (CHR 0x22 # ''heritage=external-dns'' @ [CHR 0x22])
   \<and> map Content
       (convertToPorkbunRecord []
          [\<lparr>DNSName = ''foo.baz.org'',
            Targets = [CHR 0x22 # ''heritage=external-dns'' @ [CHR 0x22]],
            RecordType = ''TXT'', RecordTTL = 600\<rparr>] ''bar.org'' False)
     = [''heritage=external-dns'']
   \<and> map Content
       (convertToPorkbunRecord []
          [\<lparr>DNSName = ''foo.baz.org'', Targets = [CHR 0x22 # ''heritage=external-dns'' @ [CHR 0x22]],
            RecordType = ''A'', RecordTTL = 600\<rparr>] ''bar.org'' False)
     = [CHR 0x22 # ''heritage=external-dns'' @ [CHR 0x22]]"
proof -
  let ?t = "CHR 0x22 # ''heritage=external-dns'' @ [CHR 0x22]"
  let ?txt = "\<lparr>DNSName = ''foo.baz.org'', Targets = [?t], RecordType = ''TXT'', RecordTTL = 600\<rparr>"
  let ?a = "\<lparr>DNSName = ''foo.baz.org'', Targets = [?t], RecordType = ''A'', RecordTTL = 600\<rparr>"
  have h1: "Targets ?txt = ?t # []" by simp
  have h2: "Targets ?a = ?t # []" by simp
  show ?thesis
    using heritage_quotes_stripped [OF h1, of "[]" "''bar.org''" False]
          heritage_quotes_stripped [OF h2, of "[]" "''bar.org''" False]
    by (simp add: convertOne_def RecordTypeTXT_def HasPrefix_def Trim_def)
qed

section \<open>No-op suppressor: properties\<close>

lemma find_snoc:
  "find P (xs @ [x]) = (case find P xs of None \<Rightarrow> (if P x then Some x else None) | Some y \<Rightarrow> Some y)"
  by (induction xs) auto

lemma buildOldMap_lookup:
  "buildOldMap olds m (name, t0) =
     (case priorEntry olds name t0 of None \<Rightarrow> m (name, t0) | Some old \<Rightarrow> Some old)"
proof (induction olds arbitrary: m)
  case Nil
  show ?case by (simp add: priorEntry_def)
next
  case (Cons ep eps)
  note IH = Cons.IH
  show ?case
  proof (cases "RecordType ep \<noteq> RecordTypeTXT")
    case True
    then show ?thesis
      by (simp add: IH priorEntry_def find_snoc split: option.splits)
  next
    case False
    note is_txt = this
    show ?thesis
    proof (cases "Targets ep")
      case Nil
      with is_txt show ?thesis
        by (simp add: IH priorEntry_def find_snoc split: option.splits)
    next
      case (Cons u us)
      with is_txt show ?thesis
        by (auto simp: IH priorEntry_def find_snoc split: option.splits)
    qed
  qed
qed

lemma filterUpdateNew_filter:
  "filterUpdateNew (buildOldMap olds Map.empty) news = filter (\<lambda>ep. \<not> isNoop olds ep) news"
proof (induction news)
  case Nil
  show ?case by simp
next
  case (Cons ep eps)
  note IH = Cons.IH
  show ?case
  proof (cases "Targets ep")
    case Nil
    with IH show ?thesis by (simp add: isNoop_def)
  next
    case (Cons t0 ts)
    with IH show ?thesis
      by (simp add: isNoop_def buildOldMap_lookup split: option.splits)
  qed
qed

lemma isNoop_no_olds: "\<not> isNoop [] ep"
  by (simp add: isNoop_def priorEntry_def split: list.splits)

text \<open>
  What \<open>priorEntry\<close> singles out: the update-old entry under the key after which no
  other entry under that key follows.
\<close>

lemma find_append_none: "\<forall>x \<in> set xs. \<not> P x \<Longrightarrow> find P (xs @ ys) = find P ys"
  by (induction xs) auto

lemma priorEntry_last:
  "priorEntry olds name t0 = Some old \<longleftrightarrow>
     (\<exists>pre post. olds = pre @ old # post
        \<and> RecordType old = RecordTypeTXT \<and> DNSName old = name
        \<and> (\<exists>us. Targets old = t0 # us)
        \<and> (\<forall>x \<in> set post. \<not> (RecordType x = RecordTypeTXT \<and> DNSName x = name
                                  \<and> (\<exists>us. Targets x = t0 # us))))"
  (is "?lhs olds \<longleftrightarrow> ?rhs olds")
proof -
  let ?P = "\<lambda>e. RecordType e = RecordTypeTXT \<and> DNSName e = name
                 \<and> (case Targets e of [] \<Rightarrow> False | u # _ \<Rightarrow> u = t0)"
  have P_eq: "\<And>e. ?P e \<longleftrightarrow> (RecordType e = RecordTypeTXT \<and> DNSName e = name
                                 \<and> (\<exists>us. Targets e = t0 # us))"
    by (auto split: list.splits)
  have forward: "find ?P (rev olds) = Some old \<Longrightarrow>
                 \<exists>pre post. olds = pre @ old # post \<and> ?P old \<and> (\<forall>x \<in> set post. \<not> ?P x)"
  proof (induction olds rule: rev_induct)
    case Nil
    then show ?case by simp
  next
    case (snoc x xs)
    show ?case
    proof (cases "?P x")
      case True
      with snoc.prems have "old = x" by simp
      with True show ?thesis
        by (intro exI [of _ xs] exI [of _ "[]"]) simp
    next
      case False
      with snoc.prems have "find ?P (rev xs) = Some old" by simp
      from snoc.IH [OF this] obtain pre post where
        "xs = pre @ old # post" "?P old" "\<forall>x \<in> set post. \<not> ?P x"
        by blast
      with False show ?thesis
        by (intro exI [of _ pre] exI [of _ "post @ [x]"]) simp
    qed
  qed
  have backward: "\<And>pre post. olds = pre @ old # post \<Longrightarrow> ?P old \<Longrightarrow> \<forall>x \<in> set post. \<not> ?P x
                  \<Longrightarrow> find ?P (rev olds) = Some old"
  proof -
    fix pre post
    assume o: "olds = pre @ old # post" and p: "?P old" and n: "\<forall>x \<in> set post. \<not> ?P x"
    from n have "\<forall>x \<in> set (rev post). \<not> ?P x" by simp
    from find_append_none [of "rev post" ?P "old # rev pre", OF this] o p
    show "find ?P (rev olds) = Some old" by simp
  qed
  show ?thesis
    unfolding priorEntry_def using forward backward by (simp only: P_eq) blast
qed

text \<open>
  C4, as amended. For every change batch, the no-op suppressor removes from update-new
  exactly those TXT entries with at least one target for which the last update-old TXT
  entry with the same DNS name and the same first target value has an equal TTL. Every
  other entry (a changed TTL against that last entry, no update-old entry under the
  key, a non-TXT entry, a TXT entry with no targets) is kept, in the original relative
  order, and the other three lists of the batch are left as they are.
\<close>

theorem removeNoopTXTUpdates_last_prior_entry:
  "removeNoopTXTUpdates c
     = c\<lparr>UpdateNew := filter (\<lambda>ep. \<not> isNoop (UpdateOld c) ep) (UpdateNew c)\<rparr>"
proof (cases "UpdateOld c = [] \<or> UpdateNew c = []")
  case True
  then show ?thesis
  proof
    assume "UpdateOld c = []"
    then show ?thesis
      by (simp add: removeNoopTXTUpdates_def isNoop_no_olds)
  next
    assume "UpdateNew c = []"
    then show ?thesis
      by (simp add: removeNoopTXTUpdates_def)
  qed
next
  case False
  then show ?thesis
    by (simp add: removeNoopTXTUpdates_def filterUpdateNew_filter)
qed

theorem removeNoopTXTUpdates_last_prior_entry_witness:
  "UpdateNew (removeNoopTXTUpdates
     \<lparr>Create = [],
      UpdateOld =
        [\<lparr>DNSName = ''txt-noop.example.com'', Targets = [''v=1''], RecordType = ''TXT'', RecordTTL = 300\<rparr>,
         \<lparr>DNSName = ''txt-ttl.example.com'', Targets = [''v=1''], RecordType = ''TXT'', RecordTTL = 300\<rparr>,
         \<lparr>DNSName = ''a.example.com'', Targets = [''1.2.3.4''], RecordType = ''A'', RecordTTL = 300\<rparr>],
      UpdateNew =
        [\<lparr>DNSName = ''txt-noop.example.com'', Targets = [''v=1''], RecordType = ''TXT'', RecordTTL = 300\<rparr>,
         \<lparr>DNSName = ''txt-ttl.example.com'', Targets = [''v=1''], RecordType = ''TXT'', RecordTTL = 600\<rparr>,
         \<lparr>DNSName = ''txt-orphan.example.com'', Targets = [''v=1''], RecordType = ''TXT'', RecordTTL = 300\<rparr>,
         \<lparr>DNSName = ''txt-empty.example.com'', Targets = [], RecordType = ''TXT'', RecordTTL = 300\<rparr>,
         \<lparr>DNSName = ''a.example.com'', Targets = [''1.2.3.4''], RecordType = ''A'', RecordTTL = 300\<rparr>],
      Delete = []\<rparr>)
   = [\<lparr>DNSName = ''txt-ttl.example.com'', Targets = [''v=1''], RecordType = ''TXT'', RecordTTL = 600\<rparr>,
      \<lparr>DNSName = ''txt-orphan.example.com'', Targets = [''v=1''], RecordType = ''TXT'', RecordTTL = 300\<rparr>,
      \<lparr>DNSName = ''txt-empty.example.com'', Targets = [], RecordType = ''TXT'', RecordTTL = 300\<rparr>,
      \<lparr>DNSName = ''a.example.com'', Targets = [''1.2.3.4''], RecordType = ''A'', RecordTTL = 300\<rparr>]"
  using removeNoopTXTUpdates_last_prior_entry
    [of "\<lparr>Create = [],
      UpdateOld =
        [\<lparr>DNSName = ''txt-noop.example.com'', Targets = [''v=1''], RecordType = ''TXT'', RecordTTL = 300\<rparr>,
         \<lparr>DNSName = ''txt-ttl.example.com'', Targets = [''v=1''], RecordType = ''TXT'', RecordTTL = 300\<rparr>,
         \<lparr>DNSName = ''a.example.com'', Targets = [''1.2.3.4''], RecordType = ''A'', RecordTTL = 300\<rparr>],
      UpdateNew =
        [\<lparr>DNSName = ''txt-noop.example.com'', Targets = [''v=1''], RecordType = ''TXT'', RecordTTL = 300\<rparr>,
         \<lparr>DNSName = ''txt-ttl.example.com'', Targets = [''v=1''], RecordType = ''TXT'', RecordTTL = 600\<rparr>,
         \<lparr>DNSName = ''txt-orphan.example.com'', Targets = [''v=1''], RecordType = ''TXT'', RecordTTL = 300\<rparr>,
         \<lparr>DNSName = ''txt-empty.example.com'', Targets = [], RecordType = ''TXT'', RecordTTL = 300\<rparr>,
         \<lparr>DNSName = ''a.example.com'', Targets = [''1.2.3.4''], RecordType = ''A'', RecordTTL = 300\<rparr>],
      Delete = []\<rparr>"]
  by (simp add: isNoop_def priorEntry_def RecordTypeTXT_def)

text \<open>
  C4 as stated removes an entry when some update-old entry under its key has an equal
  TTL. With two update-old entries under one key, only the later one is compared: the
  entry below is kept although the first update-old entry is identical to it.
\<close>

theorem removeNoopTXTUpdates_some_prior_entry_counterexample:
  "UpdateNew (removeNoopTXTUpdates
     \<lparr>Create = [],
      UpdateOld =
        [\<lparr>DNSName = ''a.example.com'', Targets = [''v=1''], RecordType = ''TXT'', RecordTTL = 300\<rparr>,
         \<lparr>DNSName = ''a.example.com'', Targets = [''v=1''], RecordType = ''TXT'', RecordTTL = 600\<rparr>],
      UpdateNew =
        [\<lparr>DNSName = ''a.example.com'', Targets = [''v=1''], RecordType = ''TXT'', RecordTTL = 300\<rparr>],
      Delete = []\<rparr>)
   = [\<lparr>DNSName = ''a.example.com'', Targets = [''v=1''], RecordType = ''TXT'', RecordTTL = 300\<rparr>]"
  by (simp add: removeNoopTXTUpdates_def RecordTypeTXT_def)

section \<open>Deleting and updating records: properties\<close>

lemma deleteCalls_take_Suc:
  "Atoi (ID x) = Some i \<Longrightarrow>
     CallDeleteRecord zone i # deleteCalls zone (take k xs) = deleteCalls zone (take (Suc k) (x # xs))"
  by simp

lemma editCalls_take_Suc:
  "Atoi (ID x) = Some i \<Longrightarrow>
     CallEditRecord zone i x # editCalls zone (take k xs) = editCalls zone (take (Suc k) (x # xs))"
  by simp

lemma DeleteDnsRecords_stops:
  assumes "\<forall>x \<in> set pre. Atoi (ID x) \<noteq> None" and "Atoi (ID r) = None"
  shows "\<exists>k e. k \<le> length pre
           \<and> DeleteDnsRecords p zone (pre @ r # post) tr = (tr @ deleteCalls zone (take k pre), Some e)"
  using assms(1)
proof (induction pre arbitrary: tr)
  case Nil
  with assms(2) show ?case by simp
next
  case (Cons x xs)
  then obtain i where i: "Atoi (ID x) = Some i" by auto
  show ?case
  proof (cases "DeleteRecord (client p) tr zone i")
    case (Some msg)
    with i have "DeleteDnsRecords p zone ((x # xs) @ r # post) tr
                 = (tr @ deleteCalls zone (take 1 (x # xs)), Some (UnableToDeleteRecord (ClientError msg)))"
      by simp
    then show ?thesis
      by (intro exI [of _ 1]) simp
  next
    case None
    from Cons.prems have "\<forall>x \<in> set xs. Atoi (ID x) \<noteq> None" by simp
    from Cons.IH [OF this, of "tr @ [CallDeleteRecord zone i]"]
    obtain k e where k: "k \<le> length xs" and
      run: "DeleteDnsRecords p zone (xs @ r # post) (tr @ [CallDeleteRecord zone i])
            = ((tr @ [CallDeleteRecord zone i]) @ deleteCalls zone (take k xs), Some e)"
      by blast
    from None i run
    have "DeleteDnsRecords p zone ((x # xs) @ r # post) tr
          = (tr @ deleteCalls zone (take (Suc k) (x # xs)), Some e)"
      by simp
    with k show ?thesis
      by (intro exI [of _ "Suc k"] exI [of _ e]) simp
  qed
qed

lemma DeleteDnsRecords_reaches:
  assumes "Atoi (ID r) = None"
  shows "deletesSucceed p zone pre tr \<Longrightarrow>
         DeleteDnsRecords p zone (pre @ r # post) tr
           = (tr @ deleteCalls zone pre, Some (UnableToParseRecordID r))"
proof (induction pre arbitrary: tr)
  case Nil
  with assms show ?case by simp
next
  case (Cons x xs)
  then show ?case
    by (cases "Atoi (ID x)") auto
qed

lemma UpdateDnsRecords_stops:
  assumes "\<forall>x \<in> set pre. Atoi (ID x) \<noteq> None" and "Atoi (ID r) = None"
  shows "\<exists>k e. k \<le> length pre
           \<and> UpdateDnsRecords p zone (pre @ r # post) tr = (tr @ editCalls zone (take k pre), Some e)"
  using assms(1)
proof (induction pre arbitrary: tr)
  case Nil
  with assms(2) show ?case by simp
next
  case (Cons x xs)
  then obtain i where i: "Atoi (ID x) = Some i" by auto
  show ?case
  proof (cases "EditRecord (client p) tr zone i x")
    case (Some msg)
    with i have "UpdateDnsRecords p zone ((x # xs) @ r # post) tr
                 = (tr @ editCalls zone (take 1 (x # xs)),
                    Some (UnableToUpdateRecord x i zone (ClientError msg)))"
      by simp
    then show ?thesis
      by (intro exI [of _ 1]) simp
  next
    case None
    from Cons.prems have "\<forall>x \<in> set xs. Atoi (ID x) \<noteq> None" by simp
    from Cons.IH [OF this, of "tr @ [CallEditRecord zone i x]"]
    obtain k e where k: "k \<le> length xs" and
      run: "UpdateDnsRecords p zone (xs @ r # post) (tr @ [CallEditRecord zone i x])
            = ((tr @ [CallEditRecord zone i x]) @ editCalls zone (take k xs), Some e)"
      by blast
    from None i run
    have "UpdateDnsRecords p zone ((x # xs) @ r # post) tr
          = (tr @ editCalls zone (take (Suc k) (x # xs)), Some e)"
      by simp
    with k show ?thesis
      by (intro exI [of _ "Suc k"] exI [of _ e]) simp
  qed
qed

lemma UpdateDnsRecords_reaches:
  assumes "Atoi (ID r) = None"
  shows "editsSucceed p zone pre tr \<Longrightarrow>
         UpdateDnsRecords p zone (pre @ r # post) tr
           = (tr @ editCalls zone pre, Some (UnableToParseRecordID r))"
proof (induction pre arbitrary: tr)
  case Nil
  with assms show ?case by simp
next
  case (Cons x xs)
  then show ?case
    by (cases "Atoi (ID x)") auto
qed

text \<open>
  C9, as amended. For every list of provider records passed to the delete or the update
  operation in which \<open>r\<close> is the first record whose identifier does not parse as a
  decimal integer: the operation returns an error, and the provider calls it issues are
  those of an initial part of the records before \<open>r\<close>, so no call is issued for \<open>r\<close> or
  for any record after it. When the provider accepts the call for every record before
  \<open>r\<close>, all of these calls are issued and the error is the parse error of \<open>r\<close>.
\<close>

theorem unparsable_identifier_stops_writes:
  assumes "\<forall>x \<in> set pre. Atoi (ID x) \<noteq> None" and "Atoi (ID r) = None"
  shows "(\<exists>k e. k \<le> length pre
            \<and> DeleteDnsRecords p zone (pre @ r # post) tr
                = (tr @ deleteCalls zone (take k pre), Some e))
       \<and> (deletesSucceed p zone pre tr \<longrightarrow>
            DeleteDnsRecords p zone (pre @ r # post) tr
              = (tr @ deleteCalls zone pre, Some (UnableToParseRecordID r)))
       \<and> (\<exists>k e. k \<le> length pre
            \<and> UpdateDnsRecords p zone (pre @ r # post) tr
                = (tr @ editCalls zone (take k pre), Some e))
       \<and> (editsSucceed p zone pre tr \<longrightarrow>
            UpdateDnsRecords p zone (pre @ r # post) tr
              = (tr @ editCalls zone pre, Some (UnableToParseRecordID r)))"
  using DeleteDnsRecords_stops [OF assms] DeleteDnsRecords_reaches [OF assms(2)]
        UpdateDnsRecords_stops [OF assms] UpdateDnsRecords_reaches [OF assms(2)]
  by blast

lemma Atoi_examples:
  "Atoi ''1'' = Some 1" "Atoi ''2'' = Some 2" "Atoi [] = None" "Atoi ''abc'' = None"
  "Atoi ''300'' = Some 300"
  by (simp_all add: parseUnsigned_def isDigit_def)

theorem unparsable_identifier_stops_writes_witness:
  "deletesSucceed \<lparr>client = acceptingClient [], domainFilter = [''bar.org''], dryRun = False\<rparr>
     ''bar.org'' [recordWithID ''1'', recordWithID ''2''] []
   \<and> DeleteDnsRecords \<lparr>client = acceptingClient [], domainFilter = [''bar.org''], dryRun = False\<rparr>
       ''bar.org'' ([recordWithID ''1'', recordWithID ''2''] @ recordWithID [] # [recordWithID ''3'']) []
     = ([CallDeleteRecord ''bar.org'' 1, CallDeleteRecord ''bar.org'' 2],
        Some (UnableToParseRecordID (recordWithID [])))
   \<and> editsSucceed \<lparr>client = acceptingClient [], domainFilter = [''bar.org''], dryRun = False\<rparr>
       ''bar.org'' [recordWithID ''1'', recordWithID ''2''] []
   \<and> UpdateDnsRecords \<lparr>client = acceptingClient [], domainFilter = [''bar.org''], dryRun = False\<rparr>
       ''bar.org'' ([recordWithID ''1'', recordWithID ''2''] @ recordWithID [] # [recordWithID ''3'']) []
     = ([CallEditRecord ''bar.org'' 1 (recordWithID ''1''),
         CallEditRecord ''bar.org'' 2 (recordWithID ''2'')],
        Some (UnableToParseRecordID (recordWithID [])))"
proof -
  have h1: "\<forall>x \<in> set [recordWithID ''1'', recordWithID ''2'']. Atoi (ID x) \<noteq> None"
    by (simp add: recordWithID_def Atoi_examples del: Atoi.simps(2))
  have h2: "Atoi (ID (recordWithID [])) = None"
    by (simp add: recordWithID_def)
  have d: "deletesSucceed \<lparr>client = acceptingClient [], domainFilter = [''bar.org''], dryRun = False\<rparr>
     ''bar.org'' [recordWithID ''1'', recordWithID ''2''] []"
    by (simp add: recordWithID_def Atoi_examples acceptingClient_def del: Atoi.simps(2))
  have e: "editsSucceed \<lparr>client = acceptingClient [], domainFilter = [''bar.org''], dryRun = False\<rparr>
     ''bar.org'' [recordWithID ''1'', recordWithID ''2''] []"
    by (simp add: recordWithID_def Atoi_examples acceptingClient_def del: Atoi.simps(2))
  have dc: "deleteCalls ''bar.org'' [recordWithID ''1'', recordWithID ''2'']
            = [CallDeleteRecord ''bar.org'' 1, CallDeleteRecord ''bar.org'' 2]"
    by (simp add: recordWithID_def Atoi_examples del: Atoi.simps(2))
  have ec: "editCalls ''bar.org'' [recordWithID ''1'', recordWithID ''2'']
            = [CallEditRecord ''bar.org'' 1 (recordWithID ''1''),
               CallEditRecord ''bar.org'' 2 (recordWithID ''2'')]"
    by (simp add: recordWithID_def Atoi_examples del: Atoi.simps(2))
  from unparsable_identifier_stops_writes [OF h1 h2,
      of "\<lparr>client = acceptingClient [], domainFilter = [''bar.org''], dryRun = False\<rparr>"
         "''bar.org''" "[recordWithID ''3'']" "[]"] d e dc ec
  show ?thesis by simp
qed

text \<open>
  C9 as stated fails when the provider refuses an earlier call: the operation stops at
  the first record with the provider's error, the second record, which precedes the
  unparsable one, is never issued, and the error is not the one of the unparsable record.
\<close>

theorem unparsable_identifier_counterexample:
  "DeleteDnsRecords \<lparr>client = refusingClient, domainFilter = [''bar.org''], dryRun = False\<rparr>
     ''bar.org'' [recordWithID ''1'', recordWithID ''2'', recordWithID []] []
   = ([CallDeleteRecord ''bar.org'' 1], Some (UnableToDeleteRecord (ClientError ''boom'')))"
  by (simp add: recordWithID_def Atoi_examples refusingClient_def del: Atoi.simps(2))

section \<open>Listing the current state: properties\<close>











section \<open>Change planner: properties\<close>

lemma dom_initZones: "dom (initZones zones m) = dom m \<union> set zones"
  by (induction zones arbitrary: m) auto

lemma route_total:
  "set filters \<subseteq> dom m \<Longrightarrow> \<exists>m'. route add filters eps m = Some m' \<and> dom m' = dom m"
proof (induction eps arbitrary: m)
  case Nil
  show ?case by simp
next
  case (Cons ep eps)
  show ?case
  proof (cases "endpointZoneName ep filters = []")
    case True
    with Cons show ?thesis by simp
  next
    case False
    with endpointZoneName_mem [of ep filters] have "endpointZoneName ep filters \<in> set filters"
      by simp
    with Cons.prems obtain c where c: "m (endpointZoneName ep filters) = Some c"
      by blast
    let ?m = "m(endpointZoneName ep filters \<mapsto> add ep c)"
    from c have d: "dom ?m = dom m" by auto
    with Cons.prems have "set filters \<subseteq> dom ?m" by simp
    from Cons.IH [OF this] obtain m' where
      m': "route add filters eps ?m = Some m'" "dom m' = dom ?m"
      by blast
    from False c have "route add filters (ep # eps) m = route add filters eps ?m"
      by (simp add: Let_def)
    with m' d show ?thesis by simp
  qed
qed

lemma partitionChanges_total:
  "\<exists>pzc. partitionChanges filters chs = Some pzc \<and> dom pzc = set filters"
proof -
  let ?m0 = "initZones filters Map.empty"
  have d0: "dom ?m0 = set filters" by (simp add: dom_initZones)
  then have "set filters \<subseteq> dom ?m0" by simp
  from route_total [OF this, of addCreate "Create chs"] d0
  obtain m1 where m1: "route addCreate filters (Create chs) ?m0 = Some m1" "dom m1 = set filters"
    by auto
  then have "set filters \<subseteq> dom m1" by simp
  from route_total [OF this, of addUpdateOld "UpdateOld chs"] m1(2)
  obtain m2 where m2: "route addUpdateOld filters (UpdateOld chs) m1 = Some m2" "dom m2 = set filters"
    by auto
  then have "set filters \<subseteq> dom m2" by simp
  from route_total [OF this, of addUpdateNew "UpdateNew chs"] m2(2)
  obtain m3 where m3: "route addUpdateNew filters (UpdateNew chs) m2 = Some m3" "dom m3 = set filters"
    by auto
  then have "set filters \<subseteq> dom m3" by simp
  from route_total [OF this, of addDelete "Delete chs"] m3(2)
  obtain m4 where m4: "route addDelete filters (Delete chs) m3 = Some m4" "dom m4 = set filters"
    by auto
  from m1(1) m2(1) m3(1) m4 show ?thesis
    by (simp add: partitionChanges_def)
qed

lemma applyLoop_outcomes:
  "applyLoop H p pzc order tr firstErr =
     (lastTrace tr (zoneOutcomes H p pzc order tr),
      case firstErr of
        None \<Rightarrow> firstError (map (snd \<circ> snd) (zoneOutcomes H p pzc order tr))
      | Some e \<Rightarrow> Some e)"
proof (induction order arbitrary: tr firstErr)
  case Nil
  show ?case by (simp split: option.splits)
next
  case (Cons z zs)
  show ?case
  proof (cases "pzc z")
    case None
    then show ?thesis by (simp add: Cons.IH cong: option.case_cong)
  next
    case (Some c)
    show ?thesis
    proof (cases "H c")
      case False
      with Some show ?thesis by (simp add: Cons.IH cong: option.case_cong)
    next
      case True
      obtain tr1 r where a: "applyChangesToZone p c z tr = (tr1, r)"
        by (cases "applyChangesToZone p c z tr")
      show ?thesis
      proof (cases r)
        case None
        with \<open>pzc z = Some c\<close> True a show ?thesis
          by (simp add: Cons.IH cong: option.case_cong)
      next
        case (Some err)
        with \<open>pzc z = Some c\<close> True a show ?thesis
          by (cases firstErr) (simp_all add: Cons.IH cong: option.case_cong)
      qed
    qed
  qed
qed

lemma firstError_None_iff: "firstError rs = None \<longleftrightarrow> (\<forall>r \<in> set rs. r = None)"
  by (induction rs rule: firstError.induct) auto

lemma zoneOutcomes_zones:
  "map fst (zoneOutcomes H p pzc order tr)
     = filter (\<lambda>z. case pzc z of None \<Rightarrow> False | Some c \<Rightarrow> H c) order"
  by (induction order arbitrary: tr) (auto split: option.splits)

text \<open>
  C5. For every change batch that has changes, applied by a provider that is not in
  dry-run mode and whose login succeeds, and for every order in which the zones are
  visited: partitioning does not fail, every visited zone whose bucket has changes is
  attempted whatever the outcome of the zones before it (the history of provider calls
  is handed on from each attempt to the next), the call returns the first error among
  the outcomes of the attempted zones in visiting order, and it returns no error
  exactly when every attempted zone succeeded.
\<close>

theorem ApplyChanges_first_error:
  assumes "HasChanges chs" and "\<not> dryRun p" and "Ping (client p) tr = None"
  shows "\<exists>pzc. partitionChanges (domainFilter p) chs = Some pzc
           \<and> dom pzc = set (domainFilter p)
           \<and> (let outcomes = zoneOutcomes HasChanges p pzc order (tr @ [CallPing])
              in ApplyChanges HasChanges order p chs tr
                   = Some (lastTrace (tr @ [CallPing]) outcomes,
                           firstError (map (snd \<circ> snd) outcomes))
               \<and> map fst outcomes
                   = filter (\<lambda>z. case pzc z of None \<Rightarrow> False | Some c \<Rightarrow> HasChanges c) order
               \<and> (firstError (map (snd \<circ> snd) outcomes) = None
                    \<longleftrightarrow> (\<forall>outcome \<in> set outcomes. snd (snd outcome) = None)))"
proof -
  from partitionChanges_total [of "domainFilter p" chs] obtain pzc where
    pzc: "partitionChanges (domainFilter p) chs = Some pzc" "dom pzc = set (domainFilter p)"
    by blast
  let ?outs = "zoneOutcomes HasChanges p pzc order (tr @ [CallPing])"
  have run: "ApplyChanges HasChanges order p chs tr
             = Some (lastTrace (tr @ [CallPing]) ?outs, firstError (map (snd \<circ> snd) ?outs))"
    using assms pzc(1)
    by (simp add: ApplyChanges_def ensureLogin_def applyLoop_outcomes)
  have none: "firstError (map (snd \<circ> snd) ?outs) = None
              \<longleftrightarrow> (\<forall>outcome \<in> set ?outs. snd (snd outcome) = None)"
    by (simp add: firstError_None_iff)
  from pzc run none zoneOutcomes_zones [of HasChanges p pzc order "tr @ [CallPing]"]
  show ?thesis
    by (intro exI [of _ pzc]) (simp add: Let_def)
qed

theorem ApplyChanges_first_error_witness:
  "anyListNonEmpty
     \<lparr>Create = [plainEndpoint ''foo.bar.org'' ''A'' 600 ''5.5.5.5'',
                plainEndpoint ''foo.baz.org'' ''A'' 600 ''6.6.6.6''],
      UpdateOld = [], UpdateNew = [], Delete = []\<rparr>
   \<and> ApplyChanges anyListNonEmpty [''bar.org'', ''baz.org'']
       \<lparr>client = selectiveClient, domainFilter = [''bar.org'', ''baz.org''], dryRun = False\<rparr>
       \<lparr>Create = [plainEndpoint ''foo.bar.org'' ''A'' 600 ''5.5.5.5'',
                  plainEndpoint ''foo.baz.org'' ''A'' 600 ''6.6.6.6''],
        UpdateOld = [], UpdateNew = [], Delete = []\<rparr> []
     = Some ([CallPing, CallRetrieveRecords ''bar.org'', CallRetrieveRecords ''baz.org'',
              CallCreateRecord ''baz.org''
                \<lparr>ID = [], Name = ''foo'', Type = ''A'', Content = ''6.6.6.6'', TTL = ''600'',
                 Prio = [], Notes = []\<rparr>],
             Some (UnableToGetDNSRecords (ClientError ''boom'')))"
proof -
  let ?chs = "\<lparr>Create = [plainEndpoint ''foo.bar.org'' ''A'' 600 ''5.5.5.5'',
                  plainEndpoint ''foo.baz.org'' ''A'' 600 ''6.6.6.6''],
        UpdateOld = [], UpdateNew = [], Delete = []\<rparr>"
  let ?p = "\<lparr>client = selectiveClient, domainFilter = [''bar.org'', ''baz.org''], dryRun = False\<rparr>"
  have h1: "anyListNonEmpty ?chs" by (simp add: anyListNonEmpty_def)
  have h2: "\<not> dryRun ?p" by simp
  have h3: "Ping (client ?p) [] = None" by (simp add: selectiveClient_def)
  have part: "partitionChanges (domainFilter ?p) ?chs
     = Some [''bar.org'' \<mapsto> \<lparr>Create = [plainEndpoint ''foo.bar.org'' ''A'' 600 ''5.5.5.5''],
                              UpdateOld = [], UpdateNew = [], Delete = []\<rparr>,
             ''baz.org'' \<mapsto> \<lparr>Create = [plainEndpoint ''foo.baz.org'' ''A'' 600 ''6.6.6.6''],
                              UpdateOld = [], UpdateNew = [], Delete = []\<rparr>]"
    by (simp add: partitionChanges_def emptyChanges_def plainEndpoint_def endpointZoneName_def
          HasSuffix_def addCreate_def Let_def)
  from ApplyChanges_first_error
         [where HasChanges = anyListNonEmpty and chs = ?chs and p = ?p and tr = "[]"
            and order = "[''bar.org'', ''baz.org'']", OF h1 h2 h3] part h1
  show ?thesis
    by (simp add: Let_def anyListNonEmpty_def applyChangesToZone_def removeNoopTXTUpdates_def
          selectiveClient_def plainEndpoint_def convertOne_def RecordTypeTXT_def HasPrefix_def
          TrimSuffix_def HasSuffix_def FormatInt_600)
qed

end
